theory Spec2Isabelle
  imports Complex_Main
begin

section \<open>Data model of the FaceRecorder component\<close>

text \<open>
  The component under study is \<open>FaceRecorder\<close> (a React function component). Its state is
  the \<open>useState\<close> cells, the \<open>useRef\<close> cells and the browser objects the handlers reach
  through them (canvases, interval timers, MediaRecorder objects, media streams and the
  object-URL store). Browser objects live in lists; a handle is the index at which the
  object was allocated, so a freshly allocated handle is \<open>length\<close> of the list and is never
  equal to an older one.

  JavaScript numbers are idealised as exact rationals. Bytes of a Blob are natural numbers.

  Conventions of the model:
  \<^item> A state setter takes effect at once. A handler that React rebuilds whenever a state
    cell it reads changes (the cell is in its dependency list) reads that cell from the
    state. The two closures that outlive the render that built them are explicit: the
    interval callback (\<open>interval\<close> below) and \<open>cleanup\<close> (its first argument).
  \<^item> An asynchronous handler (\<open>loadModels\<close>, \<open>startCamera\<close>, the interval callback) is
    modelled at the completion of the call it awaits; the outcome of that call is an
    argument.
  \<^item> A library or browser call outside a \<open>try\<close> block returns normally.
  \<^item> The \<open>width\<close> and \<open>height\<close> of a canvas are of the DOM type \<open>unsigned long\<close>: a number
    assigned to them is coerced (\<open>canvas_dim\<close> below), and assigning either resets the
    canvas to blank.
  \<^item> A ref that holds a handle is \<open>Some\<close>, a ref that holds \<open>null\<close> is \<open>None\<close>; timer handles
    are positive, so the test \<open>if (detectionIntervalRef.current)\<close> asks for \<open>Some\<close>.
  \<^item> \<open>clearInterval\<close> and \<open>revokeObjectURL\<close> on a handle that is not live, and
    \<open>MediaRecorder.stop\<close> on an inactive recorder, do nothing.
\<close>

type_synonym blob = "nat list"
type_synonym point = "rat \<times> rat"

record dims =
  width :: rat
  height :: rat

record detection =
  score :: rat
  box :: "rat \<times> rat \<times> rat \<times> rat"
  landmarks :: "point list"

text \<open>
  A canvas: its drawable size in whole pixels and the set of points that carry ink. A
  freshly sized canvas is blank.
\<close>

record canvas =
  cwidth :: nat
  cheight :: nat
  painted :: "point set"

text \<open>
  The functions of \<open>face-api.js\<close> used by the detection cycle are not part of the
  repository; they are parameters of the model. \<open>detectionsInk\<close> and \<open>landmarksInk\<close> give
  the points that \<open>faceapi.draw.drawDetections\<close> and \<open>faceapi.draw.drawFaceLandmarks\<close>
  would ink for a list of (resized) results. \<open>resizeResults\<close> is what
  \<open>faceapi.resizeResults\<close> returns for a target of positive width and height; for any
  other target the library function throws (\<open>checked_resizeResults\<close> below).
\<close>

record faceapi =
  resizeResults :: "detection list \<Rightarrow> dims \<Rightarrow> detection list"
  detectionsInk :: "detection list \<Rightarrow> point set"
  landmarksInk :: "detection list \<Rightarrow> point set"

text \<open>
  The callback handed to \<open>setInterval\<close> in \<open>startFaceDetection\<close> is a closure: it keeps
  the canvas returned by \<open>setupCanvas\<close> and the values of \<open>modelsLoaded\<close> and
  \<open>videoDimensions\<close> of the render that created it.
\<close>

record interval =
  cl_canvas :: nat
  cl_modelsLoaded :: bool
  cl_videoDimensions :: dims

text \<open>
  A MediaRecorder is \<open>RecRecording\<close> after \<open>start\<close>. \<open>stop\<close> makes it inactive at once and
  queues the final \<open>dataavailable\<close> and the \<open>stop\<close> event: \<open>RecStopping\<close> is an inactive
  recorder whose \<open>stop\<close> event is still queued.
\<close>

datatype recorder_state = RecInactive | RecRecording | RecStopping

datatype track = TrackLive | TrackEnded

record face_recorder =
  \<comment> \<open>useState\<close>
  recording :: bool
  videoURL :: "nat option"
  modelsLoaded :: bool
  cameraReady :: bool
  error :: "string option"
  faceDetected :: bool
  recordingTime :: nat
  videoDimensions :: dims
  \<comment> \<open>useRef\<close>
  videoRef :: bool
  canvasRef :: bool
  overlayChild :: "nat option"
  recorderRef :: "nat option"
  recordedChunks :: "blob list"
  detectionIntervalRef :: "nat option"
  streamRef :: "nat option"
  \<comment> \<open>browser objects\<close>
  canvases :: "canvas list"
  timers :: "interval option list"
  recorders :: "recorder_state list"
  streams :: "track list list"
  objectURLs :: "blob option list"
  console :: "string list"
  \<comment> \<open>React bookkeeping\<close>
  mounted :: bool
  installedCleanup :: "nat option option"

text \<open>
  \<open>videoRef\<close> and \<open>canvasRef\<close> say whether \<open>.current\<close> is an element; \<open>overlayChild\<close> is
  \<open>canvasRef.current.firstChild\<close>. \<open>installedCleanup\<close> is \<open>None\<close> until the initialising
  effect has run; afterwards it holds the \<open>videoURL\<close> that the installed \<open>cleanup\<close> closure
  captured (\<open>cleanup\<close> is rebuilt exactly when \<open>videoURL\<close> changes).
\<close>

definition init :: face_recorder where
  "init = \<lparr> recording = False, videoURL = None, modelsLoaded = False, cameraReady = False,
            error = None, faceDetected = False, recordingTime = 0,
            videoDimensions = \<lparr> width = 640, height = 480 \<rparr>,
            videoRef = True, canvasRef = True, overlayChild = None, recorderRef = None,
            recordedChunks = [], detectionIntervalRef = None, streamRef = None,
            canvases = [], timers = [], recorders = [], streams = [], objectURLs = [],
            console = [], mounted = True, installedCleanup = None \<rparr>"

section \<open>Browser primitives\<close>

definition clearInterval :: "nat \<Rightarrow> face_recorder \<Rightarrow> face_recorder" where
  "clearInterval t s = s\<lparr> timers := (timers s)[t := None] \<rparr>"

definition revokeObjectURL :: "nat \<Rightarrow> face_recorder \<Rightarrow> face_recorder" where
  "revokeObjectURL u s = s\<lparr> objectURLs := (objectURLs s)[u := None] \<rparr>"

definition live_handles :: "face_recorder \<Rightarrow> nat list" where
  "live_handles s = filter (\<lambda>u. objectURLs s ! u \<noteq> None) [0 ..< length (objectURLs s)]"

definition live_timers :: "face_recorder \<Rightarrow> nat list" where
  "live_timers s = filter (\<lambda>t. timers s ! t \<noteq> None) [0 ..< length (timers s)]"

definition active_recorders :: "face_recorder \<Rightarrow> nat list" where
  "active_recorders s =
     filter (\<lambda>r. recorders s ! r = RecRecording) [0 ..< length (recorders s)]"

text \<open>
  \<open>ctx.clearRect(x, y, w, h)\<close> removes the ink inside the rectangle; drawing adds ink, clipped
  to the canvas. The source clears from the origin only; there a rectangle of negative
  extent holds no point of a canvas, and it clears nothing here.
\<close>

definition clearRect :: "rat \<Rightarrow> rat \<Rightarrow> rat \<Rightarrow> rat \<Rightarrow> canvas \<Rightarrow> canvas" where
  "clearRect x y w h c =
     c\<lparr> painted :=
          Set.filter (\<lambda>(px, py). \<not> (x \<le> px \<and> px < x + w \<and> y \<le> py \<and> py < y + h)) (painted c) \<rparr>"

definition on_canvas :: "canvas \<Rightarrow> point \<Rightarrow> bool" where
  "on_canvas c =
     (\<lambda>(px, py). 0 \<le> px \<and> px < of_nat (cwidth c) \<and> 0 \<le> py \<and> py < of_nat (cheight c))"

definition paint :: "point set \<Rightarrow> canvas \<Rightarrow> canvas" where
  "paint ink c = c\<lparr> painted := painted c \<union> Set.filter (on_canvas c) ink \<rparr>"

text \<open>
  Assigning the number \<open>x\<close> to \<open>canvas.width\<close> or \<open>canvas.height\<close>: the conversion to
  \<open>unsigned long\<close> drops the fraction (towards zero) and reduces modulo \<open>2^32\<close>; a value
  above \<open>2147483647\<close> is replaced by the attribute's default (300 for the width, 150 for
  the height). So 300.75 becomes 300, and a negative whole number becomes the default.
\<close>

definition canvas_dim :: "nat \<Rightarrow> rat \<Rightarrow> nat" where
  "canvas_dim dflt x =
     (let n = (if 0 \<le> x then \<lfloor>x\<rfloor> else \<lceil>x\<rceil>) mod 2 ^ 32
      in if n > 2147483647 then dflt else nat n)"

text \<open>
  \<open>faceapi.resizeResults(results, dimensions)\<close> throws for a target whose width or height
  is not positive, before it resizes anything.
\<close>

definition checked_resizeResults ::
  "faceapi \<Rightarrow> detection list \<Rightarrow> dims \<Rightarrow> string + detection list" where
  "checked_resizeResults api results d =
     (if width d \<le> 0 \<or> height d \<le> 0 then Inl ''resizeResults - invalid dimensions''
      else Inr (resizeResults api results d))"

definition recorder_stop :: "nat \<Rightarrow> face_recorder \<Rightarrow> face_recorder" where
  "recorder_stop r s =
     (if r < length (recorders s) \<and> recorders s ! r = RecRecording
      then s\<lparr> recorders := (recorders s)[r := RecStopping] \<rparr>
      else s)"

section \<open>The handlers of FaceRecorder\<close>

definition calculateDimensions :: "int \<Rightarrow> face_recorder \<Rightarrow> face_recorder" where
  "calculateDimensions innerWidth s =
     (let maxWidth = min (of_int innerWidth - 40) 800;
          aspectRatio = 4 / 3;
          w = maxWidth;
          h = w / aspectRatio
      in s\<lparr> videoDimensions := \<lparr> width = w, height = h \<rparr> \<rparr>)"

definition loadModels :: "bool \<Rightarrow> face_recorder \<Rightarrow> face_recorder" where
  "loadModels loaded s =
     (let s1 = s\<lparr> error := None \<rparr>
      in if loaded
         then s1\<lparr> modelsLoaded := True,
                  console := console s1 @ [''Face detection models loaded successfully''] \<rparr>
         else s1\<lparr> console := console s1 @ [''Error loading models:''],
                  error := Some ''Failed to load face detection models. Please ensure model files are in the /public/models directory.'' \<rparr>)"

definition startCamera :: "track list option \<Rightarrow> face_recorder \<Rightarrow> face_recorder" where
  "startCamera granted s =
     (let s1 = s\<lparr> error := None \<rparr>
      in case granted of
           None \<Rightarrow>
             s1\<lparr> console := console s1 @ [''Error accessing camera:''],
                 error := Some ''Unable to access camera. Please ensure camera permissions are granted.'' \<rparr>
         | Some tracks \<Rightarrow>
             (let s2 = s1\<lparr> streams := streams s1 @ [tracks],
                           streamRef := Some (length (streams s1)) \<rparr>
              in if videoRef s2 then s2\<lparr> cameraReady := True \<rparr> else s2))"

text \<open>
  \<open>setupCanvas\<close>: the canvas made by \<open>faceapi.createCanvasFromMedia\<close> replaces the
  children of the container and is sized at once by \<open>faceapi.matchDimensions\<close>, which
  assigns \<open>videoDimensions.width\<close> and \<open>videoDimensions.height\<close> to its \<open>width\<close> and
  \<open>height\<close>.
\<close>

definition setupCanvas :: "face_recorder \<Rightarrow> nat option \<times> face_recorder" where
  "setupCanvas s =
     (if \<not> videoRef s \<or> \<not> canvasRef s then (None, s)
      else
        (let c = length (canvases s);
             blank = \<lparr> cwidth = canvas_dim 300 (width (videoDimensions s)),
                       cheight = canvas_dim 150 (height (videoDimensions s)), painted = {} \<rparr>
         in (Some c, s\<lparr> canvases := canvases s @ [blank], overlayChild := Some c \<rparr>)))"

definition startFaceDetection :: "face_recorder \<Rightarrow> face_recorder" where
  "startFaceDetection s =
     (case setupCanvas s of
        (None, s1) \<Rightarrow> s1
      | (Some c, s1) \<Rightarrow>
          (let s2 = (case detectionIntervalRef s1 of
                       Some t \<Rightarrow> clearInterval t s1
                     | None \<Rightarrow> s1);
               cl = \<lparr> cl_canvas = c, cl_modelsLoaded = modelsLoaded s,
                      cl_videoDimensions = videoDimensions s \<rparr>
           in s2\<lparr> timers := timers s2 @ [Some cl],
                   detectionIntervalRef := Some (length (timers s2)) \<rparr>))"

text \<open>
  The interval callback. Inside its \<open>try\<close> block the awaited inference call may fail
  (\<open>Inl\<close>), and so may \<open>faceapi.resizeResults\<close>, after \<open>setFaceDetected\<close> and before the
  canvas is touched; both end in the \<open>catch\<close>. Clearing and drawing follow the \<open>await\<close>
  without a further suspension point.
\<close>

definition draw_cycle :: "faceapi \<Rightarrow> dims \<Rightarrow> detection list \<Rightarrow> canvas \<Rightarrow> canvas" where
  "draw_cycle api d resizedDetections c =
     (let c1 = clearRect 0 0 (width d) (height d) c
      in if length resizedDetections > 0
         then paint (landmarksInk api resizedDetections)
                (paint (detectionsInk api resizedDetections) c1)
         else c1)"

definition detection_cycle ::
  "faceapi \<Rightarrow> interval \<Rightarrow> string + detection list \<Rightarrow> face_recorder \<Rightarrow> face_recorder" where
  "detection_cycle api cl outcome s =
     (if \<not> videoRef s \<or> \<not> cl_modelsLoaded cl then s
      else case outcome of
             Inl err \<Rightarrow> s\<lparr> console := console s @ [''Face detection error: '' @ err] \<rparr>
           | Inr detections \<Rightarrow>
               (let s1 = s\<lparr> faceDetected := (length detections > 0) \<rparr>;
                    c = cl_canvas cl
                in case checked_resizeResults api detections (cl_videoDimensions cl) of
                     Inl err \<Rightarrow>
                       s1\<lparr> console := console s1 @ [''Face detection error: '' @ err] \<rparr>
                   | Inr resizedDetections \<Rightarrow>
                       s1\<lparr> canvases :=
                             (canvases s1)[c := draw_cycle api (cl_videoDimensions cl)
                                                  resizedDetections (canvases s1 ! c)] \<rparr>))"

datatype start_outcome = StreamOrConstructorThrows | StartThrows | Started

definition startRecording :: "start_outcome \<Rightarrow> face_recorder \<Rightarrow> face_recorder" where
  "startRecording outcome s =
     (if \<not> canvasRef s \<or> overlayChild s = None
      then s\<lparr> error := Some ''Canvas not ready for recording'' \<rparr>
      else case outcome of
             StreamOrConstructorThrows \<Rightarrow>
               s\<lparr> console := console s @ [''Recording error:''],
                  error := Some ''Failed to start recording'' \<rparr>
           | StartThrows \<Rightarrow>
               s\<lparr> recorders := recorders s @ [RecInactive],
                  recorderRef := Some (length (recorders s)),
                  recordedChunks := [],
                  console := console s @ [''Recording error:''],
                  error := Some ''Failed to start recording'' \<rparr>
           | Started \<Rightarrow>
               s\<lparr> recorders := recorders s @ [RecRecording],
                  recorderRef := Some (length (recorders s)),
                  recordedChunks := [],
                  recording := True,
                  error := None,
                  console := console s @ [''Recording started''] \<rparr>)"

definition ondataavailable :: "blob \<Rightarrow> face_recorder \<Rightarrow> face_recorder" where
  "ondataavailable data s =
     (if length data > 0 then s\<lparr> recordedChunks := recordedChunks s @ [data] \<rparr> else s)"

definition onstop :: "face_recorder \<Rightarrow> face_recorder" where
  "onstop s =
     (let blob = concat (recordedChunks s);
          url = length (objectURLs s)
      in s\<lparr> objectURLs := objectURLs s @ [Some blob],
            videoURL := Some url,
            recordingTime := 0 \<rparr>)"

definition stopRecording :: "face_recorder \<Rightarrow> face_recorder" where
  "stopRecording s =
     (case recorderRef s of
        None \<Rightarrow> s
      | Some r \<Rightarrow>
          if recording s
          then (recorder_stop r s)\<lparr> recording := False,
                                    console := console s @ [''Recording stopped''] \<rparr>
          else s)"

text \<open>
  \<open>cleanup\<close> is rebuilt when \<open>videoURL\<close> changes, so the handle it revokes is the one of the
  render that built it: the first argument.
\<close>

definition cleanup :: "nat option \<Rightarrow> face_recorder \<Rightarrow> face_recorder" where
  "cleanup capturedURL s =
     (let s1 = (case detectionIntervalRef s of
                  Some t \<Rightarrow> clearInterval t s
                | None \<Rightarrow> s);
          s2 = (case streamRef s1 of
                  Some m \<Rightarrow> s1\<lparr> streams := (streams s1)[m := map (\<lambda>track. TrackEnded) (streams s1 ! m)] \<rparr>
                | None \<Rightarrow> s1)
      in case capturedURL of
           Some u \<Rightarrow> revokeObjectURL u s2
         | None \<Rightarrow> s2)"

definition recordingTimer :: "face_recorder \<Rightarrow> face_recorder" where
  "recordingTimer s = s\<lparr> recordingTime := recordingTime s + 1 \<rparr>"

section \<open>Events of the component\<close>

text \<open>
  Each event is one callback of the source, run to completion (the component runs on one
  thread). \<open>RunInitEffect\<close> is a run of the initialising effect: its dependency \<open>cleanup\<close>
  changes exactly when \<open>videoURL\<close> changes, and React then first runs the teardown that the
  previous run returned. The \<open>int\<close> carried by \<open>RunInitEffect\<close> and \<open>Resize\<close> is
  \<open>window.innerWidth\<close>. \<open>ModelsLoad\<close> and \<open>CameraStart\<close> are the completions of the
  asynchronous \<open>loadModels\<close> and \<open>startCamera\<close>, \<open>Tick\<close> is a firing of an interval timer
  with the outcome of the inference call, \<open>DataAvailable\<close> and \<open>StopEvent\<close> are the
  MediaRecorder's events. \<open>Unmount\<close> is final: no event is enabled after it.
\<close>

datatype event =
    RunInitEffect int
  | Resize int
  | ModelsLoad bool
  | CameraStart "track list option"
  | Play
  | Tick nat "string + detection list"
  | ClickStart start_outcome
  | ClickStop
  | DataAvailable nat blob
  | StopEvent nat
  | RecordingTick
  | Unmount

definition teardown :: "face_recorder \<Rightarrow> face_recorder" where
  "teardown s = (case installedCleanup s of Some u \<Rightarrow> cleanup u s | None \<Rightarrow> s)"

text \<open>
  The start button is rendered only while \<open>recording\<close> is false and is disabled until
  models and camera are ready; the stop button is rendered only while \<open>recording\<close> is true.
\<close>

fun enabled :: "event \<Rightarrow> face_recorder \<Rightarrow> bool" where
  "enabled (RunInitEffect w) s = (mounted s \<and> installedCleanup s \<noteq> Some (videoURL s))"
| "enabled (Resize w) s = (mounted s \<and> installedCleanup s \<noteq> None)"
| "enabled (ModelsLoad loaded) s = (mounted s \<and> installedCleanup s \<noteq> None)"
| "enabled (CameraStart granted) s = (mounted s \<and> modelsLoaded s)"
| "enabled Play s = mounted s"
| "enabled (Tick t outcome) s = (mounted s \<and> t < length (timers s) \<and> timers s ! t \<noteq> None)"
| "enabled (ClickStart outcome) s =
     (mounted s \<and> \<not> recording s \<and> modelsLoaded s \<and> cameraReady s)"
| "enabled ClickStop s = (mounted s \<and> recording s)"
| "enabled (DataAvailable r data) s =
     (mounted s \<and> r < length (recorders s) \<and> recorders s ! r \<noteq> RecInactive)"
| "enabled (StopEvent r) s =
     (mounted s \<and> r < length (recorders s) \<and> recorders s ! r = RecStopping)"
| "enabled RecordingTick s = (mounted s \<and> recording s)"
| "enabled Unmount s = mounted s"

fun fire :: "faceapi \<Rightarrow> event \<Rightarrow> face_recorder \<Rightarrow> face_recorder" where
  "fire api (RunInitEffect w) s =
     (calculateDimensions w (teardown s))\<lparr> installedCleanup := Some (videoURL s) \<rparr>"
| "fire api (Resize w) s = calculateDimensions w s"
| "fire api (ModelsLoad loaded) s = loadModels loaded s"
| "fire api (CameraStart granted) s = startCamera granted s"
| "fire api Play s = (if modelsLoaded s \<and> cameraReady s then startFaceDetection s else s)"
| "fire api (Tick t outcome) s =
     (if t < length (timers s)
      then (case timers s ! t of Some cl \<Rightarrow> detection_cycle api cl outcome s | None \<Rightarrow> s)
      else s)"
| "fire api (ClickStart outcome) s = startRecording outcome s"
| "fire api ClickStop s = stopRecording s"
| "fire api (DataAvailable r data) s = ondataavailable data s"
| "fire api (StopEvent r) s = onstop (s\<lparr> recorders := (recorders s)[r := RecInactive] \<rparr>)"
| "fire api RecordingTick s = recordingTimer s"
| "fire api Unmount s = (teardown s)\<lparr> mounted := False, videoRef := False, canvasRef := False \<rparr>"

inductive reachable :: "faceapi \<Rightarrow> face_recorder \<Rightarrow> bool" for api :: faceapi where
  reachable_init: "reachable api init"
| reachable_step: "reachable api s \<Longrightarrow> enabled e s \<Longrightarrow> reachable api (fire api e s)"

fun run :: "faceapi \<Rightarrow> event list \<Rightarrow> face_recorder \<Rightarrow> face_recorder option" where
  "run api [] s = Some s"
| "run api (e # es) s = (if enabled e s then run api es (fire api e s) else None)"

text \<open>
  A stand-in for the library, used to evaluate concrete runs: results carry coordinates
  relative to the frame, resizing multiplies them by the target size, and the ink of a
  result is the corner of its box and its landmark points.
\<close>

definition scale_point :: "dims \<Rightarrow> point \<Rightarrow> point" where
  "scale_point d = (\<lambda>(x, y). (x * width d, y * height d))"

definition demo_api :: faceapi where
  "demo_api =
     \<lparr> resizeResults = (\<lambda>ds d. map (\<lambda>r. r\<lparr> box := (case box r of (x, y, w, h) \<Rightarrow>
                            (x * width d, y * height d, w * width d, h * height d)),
                          landmarks := map (scale_point d) (landmarks r) \<rparr>) ds),
       detectionsInk = (\<lambda>ds. set (map (\<lambda>r. case box r of (x, y, w, h) \<Rightarrow> (x, y)) ds)),
       landmarksInk = (\<lambda>ds. set (concat (map landmarks ds))) \<rparr>"

definition one_face :: detection where
  "one_face = \<lparr> score = 9 / 10, box = (1 / 4, 1 / 4, 1 / 2, 1 / 2), landmarks = [(1 / 2, 1 / 2)] \<rparr>"

definition camera_ready :: "event list" where
  "camera_ready = [RunInitEffect 1024, ModelsLoad True, CameraStart (Some [TrackLive])]"

definition warm_up :: "event list" where
  "warm_up = camera_ready @ [Play]"

text \<open>
  Concrete runs. \<open>trace es\<close> is the state after the events \<open>es\<close> from the first render;
  \<open>session_events r during final\<close> is one recording session of recorder \<open>r\<close>: start, the
  segments delivered while recording, stop, the segments delivered by the final flush, and
  the recorder's \<open>stop\<close> event.
\<close>

definition trace :: "event list \<Rightarrow> face_recorder" where
  "trace es = fold (fire demo_api) es init"

definition session_events :: "nat \<Rightarrow> blob list \<Rightarrow> blob list \<Rightarrow> event list" where
  "session_events r during final =
     [ClickStart Started] @ map (DataAvailable r) during @ [ClickStop]
       @ map (DataAvailable r) final @ [StopEvent r]"

definition two_sessions :: "event list" where
  "two_sessions = warm_up @ session_events 0 [[1, 2], []] [[3]] @ [RunInitEffect 1024]
     @ session_events 1 [[7]] []"

text \<open>
  \<open>after_first_session\<close>: one complete session and the re-run of the initialising effect
  that follows the change of \<open>videoURL\<close>; \<open>restarted\<close>: camera and detection loop started
  again after it; \<open>second_stopping\<close>: a second session up to the click on stop;
  \<open>resized\<close>: a window resize to an inner width of 440 while the loop runs.
\<close>

definition after_first_session :: "event list" where
  "after_first_session = warm_up @ session_events 0 [[1, 2], []] [[3]] @ [RunInitEffect 1024]"

definition restarted :: "event list" where
  "restarted = after_first_session @ [CameraStart (Some [TrackLive]), Play]"

definition second_stopping :: "event list" where
  "second_stopping = after_first_session @ [ClickStart Started, DataAvailable 1 [7], ClickStop]"

definition resized :: "event list" where
  "resized = warm_up @ [Resize 440]"

text \<open>
  \<open>overlapped_sessions\<close>: a session delivers the segment \<open>[1, 2]\<close> and is stopped; the next
  session is started before the first recorder's final segment \<open>[3]\<close> and \<open>stop\<close> event
  arrive; then the second session delivers \<open>[7]\<close> and is stopped. \<open>two_cameras\<close>: a
  resize makes \<open>startCamera\<close> run again while the first stream is in use.
\<close>

definition overlapped_sessions :: "event list" where
  "overlapped_sessions =
     warm_up @ [ClickStart Started, DataAvailable 0 [1, 2], ClickStop,
                ClickStart Started, DataAvailable 0 [3], StopEvent 0,
                DataAvailable 1 [7], ClickStop, StopEvent 1]"


text \<open>
  Invariants: a recorder that is recording is the one held in \<open>recorderRef\<close>, and then
  \<open>recording\<close> is true; a live interval timer is the one held in \<open>detectionIntervalRef\<close>,
  its closure saw \<open>modelsLoaded\<close> true, its canvas has the size that the dimensions it
  captured are coerced to, and that canvas is blank if these dimensions are not positive
  (no cycle gets to draw on it); ink lies on the canvas.
\<close>

definition rec_inv :: "face_recorder \<Rightarrow> bool" where
  "rec_inv s \<longleftrightarrow>
     (\<forall>r < length (recorders s).
        recorders s ! r = RecRecording \<longrightarrow> recorderRef s = Some r \<and> recording s)"

definition timer_ok :: "face_recorder \<Rightarrow> nat \<Rightarrow> interval \<Rightarrow> bool" where
  "timer_ok s t cl \<longleftrightarrow>
     detectionIntervalRef s = Some t \<and> cl_modelsLoaded cl \<and>
     cl_canvas cl < length (canvases s) \<and>
     cwidth (canvases s ! cl_canvas cl) = canvas_dim 300 (width (cl_videoDimensions cl)) \<and>
     cheight (canvases s ! cl_canvas cl) = canvas_dim 150 (height (cl_videoDimensions cl)) \<and>
     (width (cl_videoDimensions cl) \<le> 0 \<or> height (cl_videoDimensions cl) \<le> 0 \<longrightarrow>
        painted (canvases s ! cl_canvas cl) = {})"

definition canvas_ok :: "canvas \<Rightarrow> bool" where
  "canvas_ok c \<longleftrightarrow> (\<forall>p \<in> painted c. on_canvas c p)"

definition loop_inv :: "face_recorder \<Rightarrow> bool" where
  "loop_inv s \<longleftrightarrow>
     (mounted s \<longrightarrow> videoRef s \<and> canvasRef s) \<and>
     (\<forall>t < length (timers s). \<forall>cl. timers s ! t = Some cl \<longrightarrow> timer_ok s t cl) \<and>
     (\<forall>c < length (canvases s). canvas_ok (canvases s ! c))"

section \<open>Invariants of the reachable states\<close>

lemma run_reachable:
  "reachable api s \<Longrightarrow> run api es s = Some s' \<Longrightarrow> reachable api s'"
proof (induction es arbitrary: s)
  case Nil
  then show ?case by simp
next
  case (Cons e es)
  from Cons.prems(2) have en: "enabled e s" and rest: "run api es (fire api e s) = Some s'"
    by (auto split: if_splits)
  from Cons.prems(1) en have "reachable api (fire api e s)"
    by (rule reachable_step)
  with rest show ?case by (rule Cons.IH[rotated])
qed

subsection \<open>Recorders\<close>

lemma nth_update_if: "j < length xs \<Longrightarrow> xs[i := v] ! j = (if i = j then v else xs ! j)"
  by (cases "i = j") simp_all

lemma rec_frame_cleanup:
  "recorders (cleanup u s) = recorders s"
  "recorderRef (cleanup u s) = recorderRef s"
  "recording (cleanup u s) = recording s"
  by (simp_all add: cleanup_def clearInterval_def revokeObjectURL_def Let_def split: option.splits)

lemma rec_frame_teardown:
  "recorders (teardown s) = recorders s"
  "recorderRef (teardown s) = recorderRef s"
  "recording (teardown s) = recording s"
  by (simp_all add: teardown_def rec_frame_cleanup split: option.splits)

lemma rec_frame_startFaceDetection:
  "recorders (startFaceDetection s) = recorders s"
  "recorderRef (startFaceDetection s) = recorderRef s"
  "recording (startFaceDetection s) = recording s"
  by (simp_all add: startFaceDetection_def setupCanvas_def clearInterval_def Let_def
        split: option.splits)

lemma rec_frame_detection_cycle:
  "recorders (detection_cycle api cl outcome s) = recorders s"
  "recorderRef (detection_cycle api cl outcome s) = recorderRef s"
  "recording (detection_cycle api cl outcome s) = recording s"
  by (simp_all add: detection_cycle_def Let_def split: sum.splits)

lemma rec_inv_startRecording:
  "rec_inv s \<Longrightarrow> \<not> recording s \<Longrightarrow> rec_inv (startRecording outcome s)"
  by (cases outcome) (auto simp: rec_inv_def startRecording_def nth_append less_Suc_eq)

lemma rec_inv_stopRecording:
  assumes "rec_inv s"
  shows "rec_inv (stopRecording s)"
proof (cases "recorderRef s")
  case None
  with assms show ?thesis by (simp add: stopRecording_def)
next
  case (Some k)
  show ?thesis
  proof (cases "recording s")
    case False
    with Some assms show ?thesis by (simp add: stopRecording_def)
  next
    case True
    have only: "r = k" if "r < length (recorders s)" "recorders s ! r = RecRecording" for r
      using assms that Some by (simp add: rec_inv_def)
    have "recorders (recorder_stop k s) ! r \<noteq> RecRecording"
      if "r < length (recorders s)" for r
      using that only[of r] by (auto simp: recorder_stop_def nth_update_if)
    moreover have "length (recorders (recorder_stop k s)) = length (recorders s)"
      by (simp add: recorder_stop_def)
    ultimately show ?thesis
      using Some True by (simp add: rec_inv_def stopRecording_def)
  qed
qed

lemma rec_inv_stop_event:
  "rec_inv s \<Longrightarrow> rec_inv (onstop (s\<lparr> recorders := (recorders s)[r := RecInactive] \<rparr>))"
  by (simp add: rec_inv_def onstop_def Let_def nth_update_if)

lemma rec_inv_fire: "rec_inv s \<Longrightarrow> enabled e s \<Longrightarrow> rec_inv (fire api e s)"
proof (cases e)
  case (ClickStart outcome)
  assume "rec_inv s" "enabled e s"
  with ClickStart show ?thesis by (simp add: rec_inv_startRecording)
next
  case ClickStop
  assume "rec_inv s" "enabled e s"
  with ClickStop show ?thesis by (simp add: rec_inv_stopRecording)
next
  case (StopEvent r)
  assume "rec_inv s" "enabled e s"
  with StopEvent show ?thesis by (simp add: rec_inv_stop_event)
qed (simp_all add: rec_inv_def rec_frame_teardown rec_frame_startFaceDetection
       rec_frame_detection_cycle calculateDimensions_def loadModels_def startCamera_def
       ondataavailable_def recordingTimer_def Let_def split: option.splits)

lemma reachable_rec_inv: "reachable api s \<Longrightarrow> rec_inv s"
proof (induction rule: reachable.induct)
  case reachable_init
  show ?case by (simp add: rec_inv_def init_def)
next
  case (reachable_step s e)
  then show ?case by (simp add: rec_inv_fire)
qed

lemma at_most_one_index:
  assumes "\<And>i. i < n \<Longrightarrow> P i \<Longrightarrow> i = k"
  shows "length (filter P [0 ..< n]) \<le> 1"
proof -
  have "distinct (filter P [0 ..< n])" by simp
  then have "card (set (filter P [0 ..< n])) = length (filter P [0 ..< n])"
    by (rule distinct_card)
  then have "length (filter P [0 ..< n]) = card (set (filter P [0 ..< n]))"
    by (rule sym)
  also have "\<dots> \<le> card {k}"
    by (rule card_mono) (use assms in auto)
  finally show ?thesis by simp
qed

subsection \<open>Detection loop and canvases\<close>

lemma draw_cycle_size:
  "cwidth (draw_cycle api d rs c) = cwidth c" "cheight (draw_cycle api d rs c) = cheight c"
  by (simp_all add: draw_cycle_def clearRect_def paint_def Let_def)

lemma draw_cycle_ok: "canvas_ok c \<Longrightarrow> canvas_ok (draw_cycle api d rs c)"
  by (auto simp: canvas_ok_def draw_cycle_def clearRect_def paint_def on_canvas_def Let_def)

lemma loop_inv_clearInterval:
  "loop_inv s \<Longrightarrow> loop_inv (clearInterval t s)"
  by (simp add: loop_inv_def clearInterval_def timer_ok_def nth_update_if)

lemma clearInterval_ref_dead:
  assumes "loop_inv s" "detectionIntervalRef s = Some t0" "t < length (timers s)"
  shows "timers (clearInterval t0 s) ! t = None"
proof (cases "timers s ! t")
  case None
  with assms(3) show ?thesis by (simp add: clearInterval_def nth_update_if)
next
  case (Some cl)
  with assms have "t = t0" by (simp add: loop_inv_def timer_ok_def)
  with assms(3) show ?thesis by (simp add: clearInterval_def)
qed

lemma no_ref_dead:
  assumes "loop_inv s" "detectionIntervalRef s = None" "t < length (timers s)"
  shows "timers s ! t = None"
proof (cases "timers s ! t")
  case None
  then show ?thesis .
next
  case (Some cl)
  with assms show ?thesis by (simp add: loop_inv_def timer_ok_def)
qed

lemma loop_inv_cleanup: "loop_inv s \<Longrightarrow> loop_inv (cleanup u s)"
  by (cases "detectionIntervalRef s"; cases "streamRef s"; cases u)
     (simp_all add: cleanup_def loop_inv_def clearInterval_def revokeObjectURL_def
        timer_ok_def nth_update_if)

lemma loop_inv_teardown: "loop_inv s \<Longrightarrow> loop_inv (teardown s)"
  by (simp add: teardown_def loop_inv_cleanup split: option.splits)

lemma loop_inv_startFaceDetection:
  assumes inv: "loop_inv s" and ml: "modelsLoaded s"
  shows "loop_inv (startFaceDetection s)"
proof (cases "\<not> videoRef s \<or> \<not> canvasRef s")
  case True
  with inv show ?thesis by (auto simp: startFaceDetection_def setupCanvas_def)
next
  case False
  define blank where "blank = \<lparr> cwidth = canvas_dim 300 (width (videoDimensions s)),
     cheight = canvas_dim 150 (height (videoDimensions s)), painted = {} \<rparr>"
  define cl where "cl = \<lparr> cl_canvas = length (canvases s), cl_modelsLoaded = modelsLoaded s,
     cl_videoDimensions = videoDimensions s \<rparr>"
  define old where "old = (case detectionIntervalRef s of Some t \<Rightarrow> (timers s)[t := None]
     | None \<Rightarrow> timers s)"
  have eq: "startFaceDetection s =
      s\<lparr> canvases := canvases s @ [blank], overlayChild := Some (length (canvases s)),
         timers := old @ [Some cl], detectionIntervalRef := Some (length (timers s)) \<rparr>"
    using False
    by (cases "detectionIntervalRef s")
       (simp_all add: startFaceDetection_def setupCanvas_def clearInterval_def Let_def
          blank_def cl_def old_def)
  have len: "length old = length (timers s)"
    by (simp add: old_def split: option.splits)
  have dead: "old ! t = None" if "t < length (timers s)" for t
  proof (cases "detectionIntervalRef s")
    case None
    with no_ref_dead[OF inv None that] show ?thesis by (simp add: old_def)
  next
    case (Some t0)
    with clearInterval_ref_dead[OF inv Some that] show ?thesis
      by (simp add: old_def clearInterval_def)
  qed
  have timers_ok: "timer_ok (startFaceDetection s) t cl'"
    if "t < length (old @ [Some cl])" "(old @ [Some cl]) ! t = Some cl'" for t cl'
  proof (cases "t < length (timers s)")
    case True
    with dead[OF True] that(2) len show ?thesis by (simp add: nth_append)
  next
    case False
    with that(1) len have t: "t = length (timers s)" by simp
    with that(2) len have "cl' = cl" by (simp add: nth_append)
    with t ml show ?thesis
      by (simp add: eq timer_ok_def cl_def blank_def)
  qed
  have canv: "canvas_ok ((canvases s @ [blank]) ! c)" if "c < length (canvases s @ [blank])" for c
  proof (cases "c < length (canvases s)")
    case True
    with inv show ?thesis by (simp add: loop_inv_def nth_append)
  next
    case False
    with that have "c = length (canvases s)" by simp
    then show ?thesis by (simp add: canvas_ok_def blank_def)
  qed
  from inv have "mounted s \<longrightarrow> videoRef s \<and> canvasRef s" by (simp add: loop_inv_def)
  with timers_ok canv show ?thesis
    unfolding loop_inv_def by (simp add: eq)
qed

lemma canvases_frame_loop_inv:
  "loop_inv s \<Longrightarrow> loop_inv (s\<lparr> faceDetected := b, console := msgs \<rparr>)"
  "loop_inv s \<Longrightarrow> loop_inv (s\<lparr> console := msgs \<rparr>)"
  by (simp_all add: loop_inv_def timer_ok_def)

lemma loop_inv_detection_cycle:
  assumes inv: "loop_inv s" and live: "t0 < length (timers s)" "timers s ! t0 = Some cl"
  shows "loop_inv (detection_cycle api cl outcome s)"
proof (cases "\<not> videoRef s \<or> \<not> cl_modelsLoaded cl")
  case True
  with inv show ?thesis by (auto simp: detection_cycle_def)
next
  case False
  show ?thesis
  proof (cases outcome)
    case (Inl err)
    with False canvases_frame_loop_inv(2)[OF inv] show ?thesis
      by (simp add: detection_cycle_def)
  next
    case (Inr ds)
    show ?thesis
    proof (cases "width (cl_videoDimensions cl) \<le> 0 \<or> height (cl_videoDimensions cl) \<le> 0")
      case True
      with False Inr canvases_frame_loop_inv(1)[OF inv] show ?thesis
        by (auto simp: detection_cycle_def checked_resizeResults_def Let_def)
    next
      case positive: False
      define c where "c = cl_canvas cl"
      define drawn where "drawn = draw_cycle api (cl_videoDimensions cl)
         (resizeResults api ds (cl_videoDimensions cl)) (canvases s ! c)"
      have eq: "detection_cycle api cl outcome s =
          s\<lparr> faceDetected := (length ds > 0), canvases := (canvases s)[c := drawn] \<rparr>"
        using False Inr positive
        by (simp add: detection_cycle_def checked_resizeResults_def Let_def c_def drawn_def)
      have size: "cwidth ((canvases s)[c := drawn] ! k) = cwidth (canvases s ! k)"
                 "cheight ((canvases s)[c := drawn] ! k) = cheight (canvases s ! k)"
        if "k < length (canvases s)" for k
        using that by (simp_all add: nth_update_if drawn_def draw_cycle_size)
      have ok: "canvas_ok ((canvases s)[c := drawn] ! k)" if "k < length (canvases s)" for k
        using that inv by (simp add: nth_update_if drawn_def draw_cycle_ok loop_inv_def)
      from inv live have ref: "detectionIntervalRef s = Some t0"
        by (simp add: loop_inv_def timer_ok_def)
      have timers_ok: "timer_ok (detection_cycle api cl outcome s) t cl1"
        if "t < length (timers s)" "timers s ! t = Some cl1" for t cl1
      proof -
        from inv that have old: "timer_ok s t cl1" by (simp add: loop_inv_def)
        with ref have "t = t0" by (simp add: timer_ok_def)
        with that live have "cl1 = cl" by simp
        with old positive size show ?thesis by (simp add: eq timer_ok_def)
      qed
      from inv have "mounted s \<longrightarrow> videoRef s \<and> canvasRef s" by (simp add: loop_inv_def)
      with timers_ok ok show ?thesis
        unfolding loop_inv_def by (simp add: eq)
    qed
  qed
qed

lemma loop_inv_fire: "loop_inv s \<Longrightarrow> enabled e s \<Longrightarrow> loop_inv (fire api e s)"
proof (cases e)
  case (RunInitEffect w)
  assume "loop_inv s"
  then have "loop_inv (teardown s)" by (rule loop_inv_teardown)
  then show ?thesis
    by (simp add: RunInitEffect loop_inv_def timer_ok_def calculateDimensions_def Let_def)
next
  case Play
  assume "loop_inv s"
  then show ?thesis by (simp add: Play loop_inv_startFaceDetection)
next
  case (Tick t outcome)
  assume "loop_inv s"
  then show ?thesis by (auto simp: Tick intro: loop_inv_detection_cycle split: option.splits)
next
  case Unmount
  assume "loop_inv s"
  then have "loop_inv (teardown s)" by (rule loop_inv_teardown)
  then show ?thesis by (simp add: Unmount loop_inv_def timer_ok_def)
next
  case (CameraStart granted)
  assume "loop_inv s"
  then show ?thesis
    by (cases granted) (auto simp: CameraStart loop_inv_def timer_ok_def startCamera_def Let_def)
next
  case (ClickStart outcome)
  assume "loop_inv s"
  then show ?thesis
    by (cases outcome) (simp_all add: ClickStart loop_inv_def timer_ok_def startRecording_def)
next
  case ClickStop
  assume "loop_inv s"
  then show ?thesis
    by (cases "recorderRef s")
       (simp_all add: ClickStop loop_inv_def timer_ok_def stopRecording_def recorder_stop_def)
qed (simp_all add: loop_inv_def timer_ok_def calculateDimensions_def loadModels_def
       ondataavailable_def onstop_def recordingTimer_def Let_def)

lemma reachable_loop_inv: "reachable api s \<Longrightarrow> loop_inv s"
proof (induction rule: reachable.induct)
  case reachable_init
  show ?case by (simp add: loop_inv_def init_def)
next
  case (reachable_step s e)
  then show ?case by (simp add: loop_inv_fire)
qed

section \<open>Concrete runs\<close>

lemmas handler_defs =
  init_def calculateDimensions_def teardown_def cleanup_def loadModels_def startCamera_def
  startFaceDetection_def setupCanvas_def startRecording_def ondataavailable_def
  stopRecording_def recorder_stop_def onstop_def clearInterval_def revokeObjectURL_def
  recordingTimer_def detection_cycle_def checked_resizeResults_def canvas_dim_def
  draw_cycle_def clearRect_def paint_def on_canvas_def
  demo_api_def one_face_def scale_point_def camera_ready_def warm_up_def session_events_def

lemma run_fold: "run api es s = Some s' \<Longrightarrow> s' = fold (fire api) es s"
  by (induction es arbitrary: s) (auto split: if_splits)

lemma reachable_trace: "run demo_api es init \<noteq> None \<Longrightarrow> reachable demo_api (trace es)"
proof -
  assume "run demo_api es init \<noteq> None"
  then obtain s' where r: "run demo_api es init = Some s'" by auto
  then have "s' = trace es" unfolding trace_def by (rule run_fold)
  moreover from reachable_init r have "reachable demo_api s'" by (rule run_reachable)
  ultimately show ?thesis by simp
qed

lemma warm_up_run: "run demo_api warm_up init \<noteq> None"
  by (simp add: handler_defs)

lemmas run_defs =
  handler_defs after_first_session_def restarted_def second_stopping_def two_sessions_def

lemma one_tick_run: "run demo_api (warm_up @ [Tick 0 (Inr [one_face])]) init \<noteq> None"
  by (simp add: handler_defs)

lemma recording_run: "run demo_api (warm_up @ [ClickStart Started]) init \<noteq> None"
  by (simp add: handler_defs)


section \<open>A firing of the interval timer\<close>

lemma tick_guard:
  assumes "reachable api s" "enabled (Tick t outcome) s"
  obtains cl where "timers s ! t = Some cl" "cl_modelsLoaded cl" "videoRef s"
    "timer_ok s t cl" "fire api (Tick t outcome) s = detection_cycle api cl outcome s"
proof -
  from assms(1) have inv: "loop_inv s" by (rule reachable_loop_inv)
  from assms(2) obtain cl where cl: "timers s ! t = Some cl" and t: "t < length (timers s)"
    and m: "mounted s" by auto
  from inv t cl have ok: "timer_ok s t cl" by (simp add: loop_inv_def)
  from inv m have "videoRef s" by (simp add: loop_inv_def)
  moreover from ok have "cl_modelsLoaded cl" by (simp add: timer_ok_def)
  moreover from cl t have "fire api (Tick t outcome) s = detection_cycle api cl outcome s" by simp
  ultimately show ?thesis using cl ok that by blast
qed

lemma on_canvas_size:
  "cwidth c' = cwidth c \<Longrightarrow> cheight c' = cheight c \<Longrightarrow> on_canvas c' = on_canvas c"
  by (simp add: on_canvas_def)

lemma canvas_dim_examples:
  "canvas_dim 300 401 = 401" "canvas_dim 150 (1203 / 4) = 300"
  "canvas_dim 300 (- 40) = 300" "canvas_dim 150 (- 30) = 150" "canvas_dim 150 (- 3 / 4) = 0"
proof -
  have f: "\<lfloor>1203 / 4 :: rat\<rfloor> = 300" by (rule floor_unique) simp_all
  have c: "\<lceil>- 3 / 4 :: rat\<rceil> = 0" by (rule ceiling_unique) simp_all
  show "canvas_dim 300 401 = 401" "canvas_dim 300 (- 40) = 300" "canvas_dim 150 (- 30) = 150"
    by (simp_all add: canvas_dim_def)
  show "canvas_dim 150 (1203 / 4) = 300" by (simp add: canvas_dim_def f)
  show "canvas_dim 150 (- 3 / 4) = 0" using c by (simp add: canvas_dim_def)
qed

lemma overlay_is_whole_pixels:
  "videoDimensions (trace [RunInitEffect 441, ModelsLoad True,
                           CameraStart (Some [TrackLive]), Play])
     = \<lparr> width = 401, height = 1203 / 4 \<rparr>"
  "canvases (trace [RunInitEffect 441, ModelsLoad True, CameraStart (Some [TrackLive]), Play])
     = [\<lparr> cwidth = 401, cheight = 300, painted = {} \<rparr>]"
proof -
  have f: "\<lfloor>1203 / 4 :: rat\<rfloor> = 300" by (rule floor_unique) simp_all
  show "videoDimensions (trace [RunInitEffect 441, ModelsLoad True,
                           CameraStart (Some [TrackLive]), Play])
     = \<lparr> width = 401, height = 1203 / 4 \<rparr>"
    by (simp add: trace_def handler_defs)
  show "canvases (trace [RunInitEffect 441, ModelsLoad True, CameraStart (Some [TrackLive]), Play])
     = [\<lparr> cwidth = 401, cheight = 300, painted = {} \<rparr>]"
    by (simp add: trace_def handler_defs f)
qed

lemma canvas_dim_le:
  assumes "0 \<le> x" and "dflt \<le> 2147483647"
  shows "of_nat (canvas_dim dflt x) \<le> x"
proof -
  define n where "n = \<lfloor>x\<rfloor> mod 2 ^ 32"
  from assms(1) have fl: "0 \<le> \<lfloor>x\<rfloor>" by simp
  then have n: "0 \<le> n" "n \<le> \<lfloor>x\<rfloor>"
    by (simp_all add: n_def zmod_le_nonneg_dividend)
  have le: "of_int \<lfloor>x\<rfloor> \<le> x" by simp
  have eq: "canvas_dim dflt x = (if n > 2147483647 then dflt else nat n)"
    using assms(1) by (simp add: canvas_dim_def n_def Let_def)
  have "int (canvas_dim dflt x) \<le> \<lfloor>x\<rfloor>"
    using assms(2) n by (simp add: eq)
  then have "(of_int (int (canvas_dim dflt x)) :: rat) \<le> of_int \<lfloor>x\<rfloor>"
    by (simp only: of_int_le_iff)
  then have "(of_nat (canvas_dim dflt x) :: rat) \<le> of_int \<lfloor>x\<rfloor>"
    by simp
  then show ?thesis using le by (rule order_trans)
qed

lemma draw_cycle_painted:
  assumes "canvas_ok c" "of_nat (cwidth c) \<le> width d" "of_nat (cheight c) \<le> height d"
  shows "painted (draw_cycle api d rs c) =
     (if rs = [] then {} else Set.filter (on_canvas c) (detectionsInk api rs \<union> landmarksInk api rs))"
proof -
  define c1 where "c1 = clearRect 0 0 (width d) (height d) c"
  define c2 where "c2 = paint (detectionsInk api rs) c1"
  have "\<not> (0 \<le> px \<and> px < width d \<and> 0 \<le> py \<and> py < height d) \<Longrightarrow> (px, py) \<notin> painted c"
    for px py
    using assms by (auto simp: canvas_ok_def on_canvas_def)
  then have cleared: "painted c1 = {}"
    by (auto simp: c1_def clearRect_def)
  have on1: "on_canvas c1 = on_canvas c"
    by (rule on_canvas_size) (simp_all add: c1_def clearRect_def)
  have on2: "on_canvas c2 = on_canvas c"
    by (rule on_canvas_size) (simp_all add: c2_def paint_def c1_def clearRect_def)
  have p2: "painted c2 = Set.filter (on_canvas c) (detectionsInk api rs)"
    by (simp add: c2_def paint_def cleared on1)
  have p3: "painted (paint (landmarksInk api rs) c2)
      = Set.filter (on_canvas c) (detectionsInk api rs \<union> landmarksInk api rs)"
    by (auto simp: paint_def p2 on2)
  show ?thesis
  proof (cases "rs = []")
    case True
    then show ?thesis using cleared by (simp add: draw_cycle_def c1_def)
  next
    case False
    then show ?thesis using p3 by (simp add: draw_cycle_def Let_def c1_def c2_def)
  qed
qed

lemma tick_painted:
  assumes "reachable api s" "enabled (Tick t (Inr detections)) s" "timers s ! t = Some cl"
  shows "painted (canvases (fire api (Tick t (Inr detections)) s) ! cl_canvas cl) =
     (if width (cl_videoDimensions cl) \<le> 0 \<or> height (cl_videoDimensions cl) \<le> 0
         \<or> resizeResults api detections (cl_videoDimensions cl) = [] then {}
      else Set.filter (on_canvas (canvases s ! cl_canvas cl))
             (detectionsInk api (resizeResults api detections (cl_videoDimensions cl))
              \<union> landmarksInk api (resizeResults api detections (cl_videoDimensions cl))))"
proof -
  from assms(1,2) obtain cl' where cl': "timers s ! t = Some cl'" and g: "cl_modelsLoaded cl'" "videoRef s"
    and ok: "timer_ok s t cl'" by (rule tick_guard)
  from cl' assms(3) have [simp]: "cl' = cl" by simp
  from assms(1) have "loop_inv s" by (rule reachable_loop_inv)
  with ok have c: "cl_canvas cl < length (canvases s)" "canvas_ok (canvases s ! cl_canvas cl)"
    "cwidth (canvases s ! cl_canvas cl) = canvas_dim 300 (width (cl_videoDimensions cl))"
    "cheight (canvases s ! cl_canvas cl) = canvas_dim 150 (height (cl_videoDimensions cl))"
    by (simp_all add: timer_ok_def loop_inv_def)
  from assms(2) have t: "t < length (timers s)" by simp
  show ?thesis
  proof (cases "width (cl_videoDimensions cl) \<le> 0 \<or> height (cl_videoDimensions cl) \<le> 0")
    case True
    with ok have "painted (canvases s ! cl_canvas cl) = {}" by (simp add: timer_ok_def)
    moreover from True assms(3) g t
    have "canvases (fire api (Tick t (Inr detections)) s) = canvases s"
      by (auto simp: detection_cycle_def checked_resizeResults_def Let_def)
    ultimately show ?thesis using True by auto
  next
    case False
    then have pos: "0 \<le> width (cl_videoDimensions cl)" "0 \<le> height (cl_videoDimensions cl)"
      by simp_all
    have fit: "of_nat (cwidth (canvases s ! cl_canvas cl)) \<le> width (cl_videoDimensions cl)"
      "of_nat (cheight (canvases s ! cl_canvas cl)) \<le> height (cl_videoDimensions cl)"
      using canvas_dim_le[OF pos(1), of 300] canvas_dim_le[OF pos(2), of 150]
      by (simp_all add: c(3,4))
    from False assms(3) g c(1) t
    have "painted (canvases (fire api (Tick t (Inr detections)) s) ! cl_canvas cl)
       = painted (draw_cycle api (cl_videoDimensions cl)
            (resizeResults api detections (cl_videoDimensions cl)) (canvases s ! cl_canvas cl))"
      by (simp add: detection_cycle_def checked_resizeResults_def Let_def)
    also note draw_cycle_painted[OF c(2) fit]
    finally show ?thesis using False by simp
  qed
qed

section \<open>Live handles and the effect of cleanup\<close>

lemma live_timers_iff: "t \<in> set (live_timers s) \<longleftrightarrow> t < length (timers s) \<and> timers s ! t \<noteq> None"
  by (auto simp: live_timers_def)

lemma live_handles_iff:
  "u \<in> set (live_handles s) \<longleftrightarrow> u < length (objectURLs s) \<and> objectURLs s ! u \<noteq> None"
  by (auto simp: live_handles_def)

lemma cleanup_fields:
  "timers (cleanup u s) = (case detectionIntervalRef s of Some t \<Rightarrow> (timers s)[t := None]
                           | None \<Rightarrow> timers s)"
  "streams (cleanup u s) = (case streamRef s of
        Some m \<Rightarrow> (streams s)[m := map (\<lambda>track. TrackEnded) (streams s ! m)]
      | None \<Rightarrow> streams s)"
  "objectURLs (cleanup u s) = (case u of Some h \<Rightarrow> (objectURLs s)[h := None]
                               | None \<Rightarrow> objectURLs s)"
  "videoURL (cleanup u s) = videoURL s"
  "mounted (cleanup u s) = mounted s"
  "installedCleanup (cleanup u s) = installedCleanup s"
  by (simp_all add: cleanup_def clearInterval_def revokeObjectURL_def Let_def split: option.splits)


section \<open>Starting and stopping a recording\<close>

text \<open>
  C4. \<open>startRecording\<close> called while the overlay canvas does not exist yet (the container
  is missing or has no child, which is how the component tells that the surface is not
  ready) does nothing but set the user-visible message \<open>Canvas not ready for recording\<close>:
  no recorder is created, \<open>recorderRef\<close> is untouched and \<open>recording\<close> stays false.
\<close>

theorem start_before_canvas_ready:
  assumes "\<not> canvasRef s \<or> overlayChild s = None" and "\<not> recording s"
  shows "startRecording outcome s = s\<lparr> error := Some ''Canvas not ready for recording'' \<rparr>
         \<and> recorders (startRecording outcome s) = recorders s
         \<and> recorderRef (startRecording outcome s) = recorderRef s
         \<and> \<not> recording (startRecording outcome s)"
  using assms by (auto simp: startRecording_def)

theorem start_before_canvas_ready_witness:
  "enabled (ClickStart Started) (trace camera_ready)
   \<and> overlayChild (trace camera_ready) = None \<and> \<not> recording (trace camera_ready)
   \<and> startRecording Started (trace camera_ready)
       = (trace camera_ready)\<lparr> error := Some ''Canvas not ready for recording'' \<rparr>
   \<and> recorders (startRecording Started (trace camera_ready)) = []
   \<and> recorderRef (startRecording Started (trace camera_ready)) = None
   \<and> \<not> recording (startRecording Started (trace camera_ready))"
proof -
  have v: "enabled (ClickStart Started) (trace camera_ready)"
    "overlayChild (trace camera_ready) = None" "\<not> recording (trace camera_ready)"
    "recorders (trace camera_ready) = []" "recorderRef (trace camera_ready) = None"
    by (simp_all add: trace_def handler_defs)
  from v(2) have "\<not> canvasRef (trace camera_ready) \<or> overlayChild (trace camera_ready) = None"
    by simp
  from start_before_canvas_ready[OF this v(3), of Started] v show ?thesis by simp
qed

text \<open>
  C9. \<open>stopRecording\<close> called while \<open>recording\<close> is false returns the state unchanged
  (flag, chunks, artifact handle, recorder handle and everything else), and stopping twice
  is the same as stopping once.
\<close>

theorem stop_when_not_recording:
  "(\<not> recording s \<longrightarrow> stopRecording s = s)
   \<and> stopRecording (stopRecording s) = stopRecording s"
  by (cases "recorderRef s") (simp_all add: stopRecording_def recorder_stop_def)

theorem stop_when_not_recording_witness:
  "\<not> recording init \<and> stopRecording init = init
   \<and> stopRecording (stopRecording (trace (warm_up @ [ClickStart Started])))
     = stopRecording (trace (warm_up @ [ClickStart Started]))
   \<and> recording (trace (warm_up @ [ClickStart Started]))"
  using stop_when_not_recording[of init]
    stop_when_not_recording[of "trace (warm_up @ [ClickStart Started])"]
  by (simp add: trace_def handler_defs)

section \<open>The detection cycle\<close>

text \<open>
  C7. After a detection cycle whose inference call returned the result list \<open>detections\<close>,
  \<open>faceDetected\<close> is true if and only if the list is non-empty; so it is false after the
  first cycle with an empty result.
\<close>

theorem faceDetected_tracks_result:
  assumes "reachable api s" and "enabled (Tick t (Inr detections)) s"
  shows "faceDetected (fire api (Tick t (Inr detections)) s) \<longleftrightarrow> detections \<noteq> []"
proof -
  from assms obtain cl where "cl_modelsLoaded cl" "videoRef s"
    "fire api (Tick t (Inr detections)) s = detection_cycle api cl (Inr detections) s"
    by (rule tick_guard)
  then show ?thesis by (simp add: detection_cycle_def Let_def split: sum.splits)
qed

theorem faceDetected_tracks_result_witness:
  "reachable demo_api (trace warm_up) \<and> enabled (Tick 0 (Inr [one_face])) (trace warm_up)
   \<and> faceDetected (fire demo_api (Tick 0 (Inr [one_face])) (trace warm_up))
   \<and> enabled (Tick 0 (Inr [])) (trace (warm_up @ [Tick 0 (Inr [one_face])]))
   \<and> \<not> faceDetected (trace (warm_up @ [Tick 0 (Inr [one_face]), Tick 0 (Inr [])]))"
proof -
  have r: "reachable demo_api (trace warm_up)"
    by (rule reachable_trace) (rule warm_up_run)
  have e: "enabled (Tick 0 (Inr [one_face])) (trace warm_up)"
    by (simp add: trace_def handler_defs)
  have r2: "reachable demo_api (trace (warm_up @ [Tick 0 (Inr [one_face])]))"
    by (rule reachable_trace) (simp add: handler_defs)
  have e2: "enabled (Tick 0 (Inr [])) (trace (warm_up @ [Tick 0 (Inr [one_face])]))"
    by (simp add: trace_def handler_defs)
  have t: "trace (warm_up @ [Tick 0 (Inr [one_face]), Tick 0 (Inr [])])
      = fire demo_api (Tick 0 (Inr [])) (trace (warm_up @ [Tick 0 (Inr [one_face])]))"
    by (simp add: trace_def)
  from faceDetected_tracks_result[OF r e] faceDetected_tracks_result[OF r2 e2] r e e2 t
  show ?thesis by simp
qed

text \<open>
  C8. A detection cycle whose inference call fails only appends a line to the console: the
  user-visible \<open>error\<close> is untouched, the interval timer stays live and its next firing
  is enabled, and that next cycle does exactly what it would have done without the failure
  (the states agree on everything but the console).
\<close>

theorem inference_failure_contained:
  assumes "reachable api s" and "enabled (Tick t (Inl err)) s"
  shows "fire api (Tick t (Inl err)) s = s\<lparr> console := console s @ [''Face detection error: '' @ err] \<rparr>
         \<and> error (fire api (Tick t (Inl err)) s) = error s
         \<and> live_timers (fire api (Tick t (Inl err)) s) = live_timers s
         \<and> enabled (Tick t outcome) (fire api (Tick t (Inl err)) s)
         \<and> (fire api (Tick t outcome) (fire api (Tick t (Inl err)) s))\<lparr> console := [] \<rparr>
             = (fire api (Tick t outcome) s)\<lparr> console := [] \<rparr>"
proof -
  from assms obtain cl where cl: "timers s ! t = Some cl" and g: "cl_modelsLoaded cl" "videoRef s"
    by (rule tick_guard)
  define s' where "s' = s\<lparr> console := console s @ [''Face detection error: '' @ err] \<rparr>"
  from assms(2) have t: "t < length (timers s)" by simp
  from cl g t have f: "fire api (Tick t (Inl err)) s = s'"
    by (simp add: detection_cycle_def s'_def)
  have en: "enabled (Tick t outcome) s'"
    using assms(2) by (simp add: s'_def)
  have next_cycle: "(fire api (Tick t outcome) s')\<lparr> console := [] \<rparr>
      = (fire api (Tick t outcome) s)\<lparr> console := [] \<rparr>"
    using cl t
    by (cases outcome) (simp_all add: s'_def detection_cycle_def Let_def split: sum.splits)
  have "error s' = error s" "live_timers s' = live_timers s"
    by (simp_all add: s'_def live_timers_def)
  with f en next_cycle show ?thesis by (simp add: s'_def)
qed

theorem inference_failure_contained_witness:
  "reachable demo_api (trace warm_up) \<and> enabled (Tick 0 (Inl ''model threw'')) (trace warm_up)
   \<and> fire demo_api (Tick 0 (Inl ''model threw'')) (trace warm_up)
       = (trace warm_up)\<lparr> console := console (trace warm_up)
                                @ [''Face detection error: '' @ ''model threw''] \<rparr>
   \<and> error (fire demo_api (Tick 0 (Inl ''model threw'')) (trace warm_up)) = error (trace warm_up)
   \<and> live_timers (fire demo_api (Tick 0 (Inl ''model threw'')) (trace warm_up))
       = live_timers (trace warm_up)
   \<and> enabled (Tick 0 (Inr [one_face])) (fire demo_api (Tick 0 (Inl ''model threw'')) (trace warm_up))
   \<and> (fire demo_api (Tick 0 (Inr [one_face]))
        (fire demo_api (Tick 0 (Inl ''model threw'')) (trace warm_up)))\<lparr> console := [] \<rparr>
       = (fire demo_api (Tick 0 (Inr [one_face])) (trace warm_up))\<lparr> console := [] \<rparr>
   \<and> live_timers (trace warm_up) = [0]"
proof -
  have r: "reachable demo_api (trace warm_up)"
    by (rule reachable_trace) (rule warm_up_run)
  have e: "enabled (Tick 0 (Inl ''model threw'')) (trace warm_up)"
    by (simp add: trace_def handler_defs)
  have v: "live_timers (trace warm_up) = [0]"
    by (simp add: trace_def handler_defs live_timers_def)
  note w = inference_failure_contained[OF r e, of "Inr [one_face]"]
  from r e v w show ?thesis by blast
qed

section \<open>The artifact of a recording session\<close>

text \<open>
  C10. The chunk buffer is one ref shared by all recorders and is reset by every start. When
  a session is started before the final segment and the \<open>stop\<close> event of the previous
  recorder have arrived, the artifacts are not the sessions' segments: the first session
  delivered \<open>[1, 2]\<close> and \<open>[3]\<close>, and its artifact (handle 0) is \<open>[3]\<close>; the second session
  delivered \<open>[7]\<close>, and its artifact (handle 1) is \<open>[3, 7]\<close>. Every step of the run is enabled
  through the rendered controls.
\<close>

theorem overlapped_sessions_mix_segments:
  "run demo_api overlapped_sessions init = Some (trace overlapped_sessions)
   \<and> objectURLs (trace overlapped_sessions) = [Some [3], Some [3, 7]]
   \<and> videoURL (trace overlapped_sessions) = Some 1"
  by (simp add: trace_def handler_defs overlapped_sessions_def)

section \<open>What the overlay shows\<close>

text \<open>
  C6. In every reachable state, after a detection cycle whose inference call returned
  \<open>detections\<close>, the ink on the cycle's canvas is exactly the ink of that result (resized
  to the dimensions the loop captured, boxes and landmarks, clipped to the canvas), and the
  canvas is blank when the result is empty. Nothing of what was on the canvas before the
  cycle remains: the cycle clears the whole canvas before it draws. (A loop that captured
  dimensions that are not positive never gets to the draw step, and its canvas is blank.)
\<close>

theorem overlay_shows_only_latest_result:
  assumes "reachable api s" and "enabled (Tick t (Inr detections)) s"
    and "timers s ! t = Some cl"
  shows "painted (canvases (fire api (Tick t (Inr detections)) s) ! cl_canvas cl) =
     (if width (cl_videoDimensions cl) \<le> 0 \<or> height (cl_videoDimensions cl) \<le> 0
         \<or> resizeResults api detections (cl_videoDimensions cl) = [] then {}
      else Set.filter (on_canvas (canvases s ! cl_canvas cl))
             (detectionsInk api (resizeResults api detections (cl_videoDimensions cl))
              \<union> landmarksInk api (resizeResults api detections (cl_videoDimensions cl))))"
  using assms by (rule tick_painted)

theorem overlay_shows_only_latest_result_witness:
  "reachable demo_api (trace (warm_up @ [Tick 0 (Inr [one_face])]))
   \<and> enabled (Tick 0 (Inr [])) (trace (warm_up @ [Tick 0 (Inr [one_face])]))
   \<and> timers (trace (warm_up @ [Tick 0 (Inr [one_face])])) ! 0
       = Some \<lparr> cl_canvas = 0, cl_modelsLoaded = True,
                cl_videoDimensions = \<lparr> width = 800, height = 600 \<rparr> \<rparr>
   \<and> painted (canvases (trace (warm_up @ [Tick 0 (Inr [one_face])])) ! 0)
       = {(200, 150), (400, 300)}
   \<and> painted (canvases (fire demo_api (Tick 0 (Inr []))
                 (trace (warm_up @ [Tick 0 (Inr [one_face])]))) ! 0) = {}"
proof -
  let ?s = "trace (warm_up @ [Tick 0 (Inr [one_face])])"
  let ?cl = "\<lparr> cl_canvas = 0, cl_modelsLoaded = True,
                cl_videoDimensions = \<lparr> width = 800, height = 600 \<rparr> \<rparr>"
  have r: "reachable demo_api ?s"
    by (rule reachable_trace) (rule one_tick_run)
  have e: "enabled (Tick 0 (Inr [])) ?s"
    by (simp add: trace_def handler_defs)
  have c: "timers ?s ! 0 = Some ?cl"
    by (simp add: trace_def handler_defs)
  have p: "painted (canvases ?s ! 0) = {(200, 150), (400, 300)}"
    by (auto simp: trace_def handler_defs)
  have n: "resizeResults demo_api [] \<lparr> width = 800, height = 600 \<rparr> = []"
    by (simp add: demo_api_def)
  from overlay_shows_only_latest_result[OF r e c] n
  have "painted (canvases (fire demo_api (Tick 0 (Inr [])) ?s) ! 0) = {}"
    by simp
  with r e c p show ?thesis by blast
qed

text \<open>
  C2. The resize handler only recomputes \<open>videoDimensions\<close>; nothing resizes the overlay
  canvas or restarts the interval callback, which keeps the dimensions it captured. After a
  resize from an inner width of 1024 to 440 while the loop runs, the display is 400 by 300,
  the overlay canvas is still 800 by 600 and the loop that drew before the resize is still
  the live one; its next cycle draws the face at the coordinates for 800 by 600, not at
  those that \<open>resizeResults\<close> gives for the display, 400 by 300.
\<close>

theorem resize_leaves_overlay_stale:
  "run demo_api resized init = Some (trace resized)
   \<and> videoDimensions (trace resized) = \<lparr> width = 400, height = 300 \<rparr>
   \<and> overlayChild (trace resized) = Some 0
   \<and> cwidth (canvases (trace resized) ! 0) = 800
   \<and> cheight (canvases (trace resized) ! 0) = 600
   \<and> live_timers (trace resized) = [0]
   \<and> painted (canvases (fire demo_api (Tick 0 (Inr [one_face])) (trace resized)) ! 0)
       = {(200, 150), (400, 300)}
   \<and> detectionsInk demo_api (resizeResults demo_api [one_face] (videoDimensions (trace resized)))
       \<union> landmarksInk demo_api (resizeResults demo_api [one_face] (videoDimensions (trace resized)))
       = {(100, 75), (200, 150)}"
  by (auto simp: trace_def handler_defs resized_def live_timers_def)

section \<open>One recording session at a time\<close>

text \<open>
  C3, as amended. \<open>startRecording\<close> has no guard of its own against a running session;
  the start button is offered only while \<open>recording\<close> is false. With the handlers invoked
  through the rendered controls, every reachable state has at most one recorder that is
  recording, and none whenever the start button can be clicked.
\<close>

theorem start_control_gates_single_session:
  assumes "reachable api s"
  shows "length (active_recorders s) \<le> 1
         \<and> (enabled (ClickStart outcome) s \<longrightarrow> active_recorders s = [])"
proof -
  from assms have inv: "rec_inv s" by (rule reachable_rec_inv)
  have one: "length (active_recorders s) \<le> 1"
  proof (cases "recorderRef s")
    case None
    with inv show ?thesis
      unfolding active_recorders_def
      by (intro at_most_one_index[where k = 0]) (auto simp: rec_inv_def)
  next
    case (Some k)
    with inv show ?thesis
      unfolding active_recorders_def
      by (intro at_most_one_index[where k = k]) (auto simp: rec_inv_def)
  qed
  have "active_recorders s = []" if "enabled (ClickStart outcome) s"
  proof -
    from that have "\<not> recording s" by simp
    with inv show ?thesis
      by (auto simp: active_recorders_def rec_inv_def filter_empty_conv)
  qed
  with one show ?thesis by blast
qed

theorem start_control_gates_single_session_witness:
  "reachable demo_api (trace (warm_up @ [ClickStart Started]))
   \<and> length (active_recorders (trace (warm_up @ [ClickStart Started]))) \<le> 1
   \<and> active_recorders (trace (warm_up @ [ClickStart Started])) = [0]
   \<and> reachable demo_api (trace warm_up)
   \<and> enabled (ClickStart Started) (trace warm_up)
   \<and> active_recorders (trace warm_up) = []"
proof -
  have r: "reachable demo_api (trace (warm_up @ [ClickStart Started]))"
    by (rule reachable_trace) (rule recording_run)
  have r0: "reachable demo_api (trace warm_up)"
    by (rule reachable_trace) (rule warm_up_run)
  have e: "enabled (ClickStart Started) (trace warm_up)"
    by (simp add: trace_def handler_defs)
  have a: "active_recorders (trace (warm_up @ [ClickStart Started])) = [0]"
    by (simp add: trace_def handler_defs active_recorders_def)
  from start_control_gates_single_session[OF r, of Started]
    start_control_gates_single_session[OF r0, of Started] r r0 e a
  show ?thesis by blast
qed

text \<open>
  C3 as stated fails for the operation itself: \<open>startRecording\<close> invoked while recorder 0
  is recording creates recorder 1, and both are recording.
\<close>

theorem second_start_counterexample:
  "active_recorders (trace (warm_up @ [ClickStart Started])) = [0]
   \<and> active_recorders (startRecording Started (trace (warm_up @ [ClickStart Started]))) = [0, 1]"
  by (simp add: trace_def handler_defs active_recorders_def)

section \<open>Artifact handles\<close>

text \<open>
  C1, as amended. When the \<open>stop\<close> event of a session arrives while the handle \<open>u\<close> of
  the previous artifact is held and live, the handler exposes a new, different handle and
  releases nothing: both handles are live. The previous handle is released afterwards, by
  the teardown of the initialising effect, which React re-runs because \<open>videoURL\<close> changed;
  from then on the new handle is the only live one.
\<close>

theorem previous_handle_released_after_exposure:
  assumes "mounted s" and "videoURL s = Some u" and "installedCleanup s = Some (Some u)"
    and "set (live_handles s) = {u}"
  shows "videoURL (fire api (StopEvent r) s) = Some (length (objectURLs s))
         \<and> u \<noteq> length (objectURLs s)
         \<and> set (live_handles (fire api (StopEvent r) s)) = {u, length (objectURLs s)}
         \<and> enabled (RunInitEffect w) (fire api (StopEvent r) s)
         \<and> videoURL (fire api (RunInitEffect w) (fire api (StopEvent r) s))
             = Some (length (objectURLs s))
         \<and> set (live_handles (fire api (RunInitEffect w) (fire api (StopEvent r) s)))
             = {length (objectURLs s)}"
proof -
  define n where "n = length (objectURLs s)"
  define s1 where "s1 = fire api (StopEvent r) s"
  define s2 where "s2 = fire api (RunInitEffect w) s1"
  from assms(4) have "u \<in> set (live_handles s)" by simp
  then have u: "u < n" by (simp add: live_handles_iff n_def)
  have live: "k < n \<and> objectURLs s ! k \<noteq> None \<longleftrightarrow> k = u" for k
    using assms(4) live_handles_iff[of k s] by (auto simp: n_def)
  have urls1: "objectURLs s1 = objectURLs s @ [Some (concat (recordedChunks s))]"
    and v1: "videoURL s1 = Some n" and i1: "installedCleanup s1 = Some (Some u)"
    and m1: "mounted s1"
    using assms(1,3) by (simp_all add: s1_def onstop_def Let_def n_def)
  have l1: "set (live_handles s1) = {u, n}"
  proof (rule set_eqI)
    fix k
    show "k \<in> set (live_handles s1) \<longleftrightarrow> k \<in> {u, n}"
      using live[of k] u
      by (cases "k < n") (auto simp: live_handles_iff urls1 nth_append n_def)
  qed
  from u v1 i1 m1 have en: "enabled (RunInitEffect w) s1" by simp
  have td: "teardown s1 = cleanup (Some u) s1"
    using i1 by (simp add: teardown_def)
  have urls2: "objectURLs s2 = (objectURLs s1)[u := None]" and v2: "videoURL s2 = Some n"
    using v1 by (simp_all add: s2_def td calculateDimensions_def Let_def cleanup_fields)
  have l2: "set (live_handles s2) = {n}"
  proof (rule set_eqI)
    fix k
    show "k \<in> set (live_handles s2) \<longleftrightarrow> k \<in> {n}"
      using live[of k] u
      by (cases "k < n") (auto simp: live_handles_iff urls2 urls1 nth_update_if nth_append n_def)
  qed
  from v1 u l1 en v2 l2 show ?thesis
    unfolding s2_def s1_def n_def by blast
qed

theorem previous_handle_released_after_exposure_witness:
  "mounted (trace second_stopping) \<and> videoURL (trace second_stopping) = Some 0
   \<and> installedCleanup (trace second_stopping) = Some (Some 0)
   \<and> set (live_handles (trace second_stopping)) = {0}
   \<and> length (objectURLs (trace second_stopping)) = 1
   \<and> videoURL (fire demo_api (StopEvent 1) (trace second_stopping))
       = Some (length (objectURLs (trace second_stopping)))
   \<and> set (live_handles (fire demo_api (StopEvent 1) (trace second_stopping)))
       = {0, length (objectURLs (trace second_stopping))}
   \<and> enabled (RunInitEffect 1024) (fire demo_api (StopEvent 1) (trace second_stopping))
   \<and> set (live_handles (fire demo_api (RunInitEffect 1024)
             (fire demo_api (StopEvent 1) (trace second_stopping))))
       = {length (objectURLs (trace second_stopping))}"
proof -
  have a: "mounted (trace second_stopping)" "videoURL (trace second_stopping) = Some 0"
    "installedCleanup (trace second_stopping) = Some (Some 0)"
    "set (live_handles (trace second_stopping)) = {0}"
    "length (objectURLs (trace second_stopping)) = 1"
    by (simp_all add: trace_def run_defs live_handles_def)
  note w = previous_handle_released_after_exposure[OF a(1,2,3,4), of demo_api 1 1024]
  from w a show ?thesis by blast
qed

text \<open>
  C1 as stated fails: right after the \<open>stop\<close> event of the second of two sessions the
  new handle 1 is exposed in \<open>videoURL\<close> and the handles 0 and 1 are both live.
\<close>

theorem two_live_handles_counterexample:
  "run demo_api two_sessions init = Some (trace two_sessions)
   \<and> videoURL (trace two_sessions) = Some 1
   \<and> live_handles (trace two_sessions) = [0, 1]"
  by (simp add: trace_def run_defs live_handles_def)

section \<open>Teardown\<close>




end
